theory Spec2Isabelle
  imports Main
begin

unbundle bit_operations_syntax

section \<open>The rotary encoder of prog_calculatorOneRing.py\<close>

text \<open>
  Python integers are unbounded: they are \<open>int\<close>. \<open>//\<close> and \<open>%\<close> round towards minus
  infinity, as \<open>div\<close> and \<open>mod\<close> on \<open>int\<close> do, but raise ZeroDivisionError on a zero
  divisor, where HOL returns 0; the two operations are therefore fallible here.
\<close>

datatype py_error = ZeroDivisionError | OtherError string

definition floordiv :: "int \<Rightarrow> int \<Rightarrow> py_error + int" where
  "floordiv a b = (if b = 0 then Inl ZeroDivisionError else Inr (a div b))"

definition pymod :: "int \<Rightarrow> int \<Rightarrow> py_error + int" where
  "pymod a b = (if b = 0 then Inl ZeroDivisionError else Inr (a mod b))"

subsection \<open>Constants and transition tables\<close>

definition DIR_CW :: int where "DIR_CW = 0x10"
definition DIR_CCW :: int where "DIR_CCW = 0x20"

definition R_START :: int where "R_START = 0x0"
definition R_CW_1 :: int where "R_CW_1 = 0x1"
definition R_CW_2 :: int where "R_CW_2 = 0x2"
definition R_CW_3 :: int where "R_CW_3 = 0x3"
definition R_CCW_1 :: int where "R_CCW_1 = 0x4"
definition R_CCW_2 :: int where "R_CCW_2 = 0x5"
definition R_CCW_3 :: int where "R_CCW_3 = 0x6"
definition R_ILLEGAL :: int where "R_ILLEGAL = 0x7"

text \<open>Rows are the current state, columns the sample CLK/DT = 00, 01, 10, 11.\<close>

definition transition_table :: "int list list" where
  "transition_table =
    [[R_START, R_CCW_1, R_CW_1, R_START],
     [R_CW_2, R_START, R_CW_1, R_START],
     [R_CW_2, R_CW_3, R_CW_1, R_START],
     [R_CW_2, R_CW_3, R_START, R_START OR DIR_CW],
     [R_CCW_2, R_CCW_1, R_START, R_START],
     [R_CCW_2, R_CCW_1, R_CCW_3, R_START],
     [R_CCW_2, R_START, R_CCW_3, R_START OR DIR_CCW],
     [R_START, R_START, R_START, R_START]]"

definition transition_table_half_step :: "int list list" where
  "transition_table_half_step =
    [[R_CW_3, R_CW_2, R_CW_1, R_START],
     [R_CW_3 OR DIR_CCW, R_START, R_CW_1, R_START],
     [R_CW_3 OR DIR_CW, R_CW_2, R_START, R_START],
     [R_CW_3, R_CCW_2, R_CCW_1, R_START],
     [R_CW_3, R_CW_2, R_CCW_1, R_START OR DIR_CW],
     [R_CW_3, R_CCW_2, R_CW_3, R_START OR DIR_CCW],
     [R_START, R_START, R_START, R_START],
     [R_START, R_START, R_START, R_START]]"

definition STATE_MASK :: int where "STATE_MASK = 0x07"
definition DIR_MASK :: int where "DIR_MASK = 0x30"

subsection \<open>Range policies\<close>

text \<open>
  \<open>_wrap\<close>: the source's local \<open>range\<close> is \<open>rng\<close>, and each assignment to \<open>value\<close> is a
  new name. The floor division is evaluated only on the branch \<open>value < lower_bound\<close>,
  the modulo always.
\<close>

definition wrap :: "int \<Rightarrow> int \<Rightarrow> int \<Rightarrow> int \<Rightarrow> py_error + int" where
  "wrap v incr lower_bound upper_bound =
    (let rng = upper_bound - lower_bound + 1;
         v1 = v + incr
     in case (if v1 < lower_bound
              then (case floordiv (lower_bound - v1) rng of
                      Inl e \<Rightarrow> Inl e
                    | Inr q \<Rightarrow> Inr (v1 + rng * (q + 1)))
              else Inr v1) of
          Inl e \<Rightarrow> Inl e
        | Inr v2 \<Rightarrow>
            (case pymod (v2 - lower_bound) rng of
               Inl e \<Rightarrow> Inl e
             | Inr m \<Rightarrow> Inr (lower_bound + m)))"

definition bound :: "int \<Rightarrow> int \<Rightarrow> int \<Rightarrow> int \<Rightarrow> int" where
  "bound v incr lower_bound upper_bound = min upper_bound (max lower_bound (v + incr))"

subsection \<open>Listeners\<close>

text \<open>
  A listener is a zero-argument callback. It acts on whatever the application lets it
  reach, the world \<open>'w\<close>, and either returns (\<open>None\<close>) or raises (\<open>Some e\<close>); in both
  cases the world is what the callback left behind. Listeners here do not call back into
  the encoder object.
\<close>

type_synonym 'w listener = "'w \<Rightarrow> py_error option \<times> 'w"

text \<open>\<open>_trigger\<close>: a plain loop, so the first listener that raises ends it.\<close>

fun trigger :: "'w listener list \<Rightarrow> 'w \<Rightarrow> py_error option \<times> 'w" where
  "trigger [] w = (None, w)"
| "trigger (l # ls) w =
    (case l w of
       (None, w') \<Rightarrow> trigger ls w'
     | (Some e, w') \<Rightarrow> (Some e, w'))"

subsection \<open>The class Rotary\<close>

text \<open>Field \<open>self._x\<close> of the source is \<open>rot_x\<close>.\<close>

record 'w Rotary =
  rot_min_val :: int
  rot_max_val :: int
  rot_incr :: int
  rot_reverse :: int
  rot_range_mode :: int
  rot_value :: int
  rot_state :: int
  rot_half_step :: bool
  rot_invert :: bool
  rot_listener :: "'w listener list"

definition RANGE_UNBOUNDED :: int where "RANGE_UNBOUNDED = 1"
definition RANGE_WRAP :: int where "RANGE_WRAP = 2"
definition RANGE_BOUNDED :: int where "RANGE_BOUNDED = 3"

text \<open>
  A method call on the object: the exception it ended with, if any, the object and the
  world as the call left them. An exception does not undo the assignments made before it.
\<close>

record 'w call_result =
  raised :: "py_error option"
  obj :: "'w Rotary"
  env :: 'w

definition Rotary_init ::
  "int \<Rightarrow> int \<Rightarrow> int \<Rightarrow> bool \<Rightarrow> int \<Rightarrow> bool \<Rightarrow> bool \<Rightarrow> 'w Rotary" where
  "Rotary_init min_val max_val incr reverse range_mode half_step invert =
    \<lparr> rot_min_val = min_val,
      rot_max_val = max_val,
      rot_incr = incr,
      rot_reverse = (if reverse then - 1 else 1),
      rot_range_mode = range_mode,
      rot_value = min_val,
      rot_state = R_START,
      rot_half_step = half_step,
      rot_invert = invert,
      rot_listener = [] \<rparr>"

text \<open>
  \<open>set\<close>: every keyword argument defaults to \<open>None\<close>. The two HAL calls around the body
  switch the pin interrupts off and on and touch no field.
\<close>

definition Rotary_set ::
  "'w Rotary \<Rightarrow> 'w \<Rightarrow> int option \<Rightarrow> int option \<Rightarrow> int option \<Rightarrow> int option \<Rightarrow>
     bool option \<Rightarrow> int option \<Rightarrow> 'w call_result" where
  "Rotary_set self w val min_val incr max_val reverse range_mode =
    (let s1 = (case val of None \<Rightarrow> self | Some v \<Rightarrow> self\<lparr>rot_value := v\<rparr>);
         s2 = (case min_val of None \<Rightarrow> s1 | Some v \<Rightarrow> s1\<lparr>rot_min_val := v\<rparr>);
         s3 = (case max_val of None \<Rightarrow> s2 | Some v \<Rightarrow> s2\<lparr>rot_max_val := v\<rparr>);
         s4 = (case incr of None \<Rightarrow> s3 | Some v \<Rightarrow> s3\<lparr>rot_incr := v\<rparr>);
         s5 = (case reverse of None \<Rightarrow> s4
               | Some b \<Rightarrow> s4\<lparr>rot_reverse := (if b then - 1 else 1)\<rparr>);
         s6 = (case range_mode of None \<Rightarrow> s5 | Some v \<Rightarrow> s5\<lparr>rot_range_mode := v\<rparr>)
     in \<lparr> raised = None, obj = s6\<lparr>rot_state := R_START\<rparr>, env = w \<rparr>)"

definition Rotary_value :: "'w Rotary \<Rightarrow> int" where
  "Rotary_value self = rot_value self"

definition Rotary_reset :: "'w Rotary \<Rightarrow> 'w \<Rightarrow> 'w call_result" where
  "Rotary_reset self w = \<lparr> raised = None, obj = self\<lparr>rot_value := 0\<rparr>, env = w \<rparr>"

definition add_listener :: "'w Rotary \<Rightarrow> 'w listener \<Rightarrow> 'w Rotary" where
  "add_listener self l = self\<lparr>rot_listener := rot_listener self @ [l]\<rparr>"

text \<open>
  \<open>_process_rotary_pins\<close>. The two pin levels the HAL reads (\<open>Pin.value()\<close> is 0 or 1)
  are the inputs \<open>clk\<close> and \<open>dt\<close>. \<open>clk_dt_pins\<close> is lines 123 to 127, \<open>next_state\<close>
  lines 130 to 135, \<open>signed_incr\<close> lines 136 to 144, \<open>notify\<close> the \<open>try\<close> block.
\<close>

definition clk_dt_pins :: "bool \<Rightarrow> bool \<Rightarrow> bool \<Rightarrow> int" where
  "clk_dt_pins invert clk dt =
    (let pins = push_bit 1 (of_bool clk) OR of_bool dt
     in if invert then NOT pins AND 0x03 else pins)"

definition next_state :: "bool \<Rightarrow> int \<Rightarrow> int \<Rightarrow> int" where
  "next_state half_step st pins =
    (if half_step
     then transition_table_half_step ! nat (st AND STATE_MASK) ! nat pins
     else transition_table ! nat (st AND STATE_MASK) ! nat pins)"

definition signed_incr :: "'w Rotary \<Rightarrow> int \<Rightarrow> int" where
  "signed_incr self st =
    (let direction = st AND DIR_MASK;
         incr = (if direction = DIR_CW then rot_incr self
                 else if direction = DIR_CCW then - rot_incr self
                 else 0)
     in incr * rot_reverse self)"

text \<open>The bare \<open>except: pass\<close> drops whatever \<open>_trigger\<close> raised.\<close>

definition notify :: "int \<Rightarrow> 'w Rotary \<Rightarrow> 'w \<Rightarrow> 'w" where
  "notify old_value self w =
    (if old_value \<noteq> rot_value self \<and> length (rot_listener self) \<noteq> 0
     then snd (trigger (rot_listener self) w)
     else w)"

definition process_rotary_pins :: "'w Rotary \<Rightarrow> 'w \<Rightarrow> bool \<Rightarrow> bool \<Rightarrow> 'w call_result" where
  "process_rotary_pins self w clk dt =
    (let old_value = rot_value self;
         pins = clk_dt_pins (rot_invert self) clk dt;
         s1 = self\<lparr>rot_state := next_state (rot_half_step self) (rot_state self) pins\<rparr>;
         incr = signed_incr s1 (rot_state s1)
     in if rot_range_mode s1 = RANGE_WRAP then
          (case wrap (rot_value s1) incr (rot_min_val s1) (rot_max_val s1) of
             Inl e \<Rightarrow> \<lparr> raised = Some e, obj = s1, env = w \<rparr>
           | Inr v \<Rightarrow>
               (let s2 = s1\<lparr>rot_value := v\<rparr>
                in \<lparr> raised = None, obj = s2, env = notify old_value s2 w \<rparr>))
        else if rot_range_mode s1 = RANGE_BOUNDED then
          (let s2 = s1\<lparr>rot_value :=
                       bound (rot_value s1) incr (rot_min_val s1) (rot_max_val s1)\<rparr>
           in \<lparr> raised = None, obj = s2, env = notify old_value s2 w \<rparr>)
        else
          (let s2 = s1\<lparr>rot_value := rot_value s1 + incr\<rparr>
           in \<lparr> raised = None, obj = s2, env = notify old_value s2 w \<rparr>))"

subsection \<open>Driving the encoder\<close>

text \<open>
  The two encoders the program creates (the other \<open>RotaryIRQ\<close> arguments name pins;
  \<open>invert\<close> keeps its default). The program registers no listener, so their world is
  \<open>unit\<close>.
\<close>

definition r_l :: "unit Rotary" where
  "r_l = Rotary_init 1 20 1 False RANGE_BOUNDED False False"

definition r_r :: "unit Rotary" where
  "r_r = Rotary_init 0 6 1 False RANGE_BOUNDED False False"

text \<open>
  Every edge of either line is one call of the handler with the levels (CLK, DT) read at
  that moment. An exception ends that call only; the next edge finds the object as the
  call left it.
\<close>

fun run :: "'w Rotary \<Rightarrow> 'w \<Rightarrow> (bool \<times> bool) list \<Rightarrow> 'w Rotary \<times> 'w" where
  "run self w [] = (self, w)"
| "run self w ((clk, dt) # es) =
    (let res = process_rotary_pins self w clk dt in run (obj res) (env res) es)"

text \<open>The value of the handler's local \<open>direction\<close> in each call.\<close>

fun directions :: "'w Rotary \<Rightarrow> 'w \<Rightarrow> (bool \<times> bool) list \<Rightarrow> int list" where
  "directions self w [] = []"
| "directions self w ((clk, dt) # es) =
    (let res = process_rotary_pins self w clk dt
     in (rot_state (obj res) AND DIR_MASK) # directions (obj res) (env res) es)"

text \<open>The tracked value after each call minus the value before it.\<close>

fun deltas :: "'w Rotary \<Rightarrow> 'w \<Rightarrow> (bool \<times> bool) list \<Rightarrow> int list" where
  "deltas self w [] = []"
| "deltas self w ((clk, dt) # es) =
    (let res = process_rotary_pins self w clk dt
     in (rot_value (obj res) - rot_value self) # deltas (obj res) (env res) es)"

text \<open>One detent in each direction: samples 10, 00, 01, 11 and 01, 00, 10, 11.\<close>

definition cw_detent :: "(bool \<times> bool) list" where
  "cw_detent = [(True, False), (False, False), (False, True), (True, True)]"

definition ccw_detent :: "(bool \<times> bool) list" where
  "ccw_detent = [(False, True), (False, False), (True, False), (True, True)]"

subsection \<open>Fixtures\<close>

text \<open>
  A world that records calls: \<open>log_listener n\<close> appends \<open>n\<close> and returns,
  \<open>faulty_listener\<close> raises at once. \<open>observed\<close> is an encoder configured as \<open>r_l\<close> with
  three listeners, the second of them faulty; \<open>overshot\<close> is \<open>r_l\<close> one sample before the
  end of a clockwise detent, with a value above its bounds.
\<close>

definition log_listener :: "nat \<Rightarrow> nat list listener" where
  "log_listener n w = (None, w @ [n])"

definition faulty_listener :: "nat list listener" where
  "faulty_listener w = (Some (OtherError ''fault''), w)"

definition observed :: "nat list Rotary" where
  "observed =
    add_listener
      (add_listener
        (add_listener (Rotary_init 1 20 1 False RANGE_BOUNDED False False) (log_listener 1))
        faulty_listener)
      (log_listener 3)"

definition overshot :: "unit Rotary" where
  "overshot = r_l\<lparr>rot_value := 40, rot_state := R_CW_3\<rparr>"

section \<open>Range policy: wrap\<close>

lemma mod_shift: "(a + r * k - lo) mod r = (a - lo) mod (r::int)"
proof -
  have "a + r * k - lo = (a - lo) + r * k" by simp
  then have "(a + r * k - lo) mod r = ((a - lo) + r * k) mod r" by (rule arg_cong)
  also have "\<dots> = (a - lo) mod r" by (rule mod_mult_self2)
  finally show ?thesis .
qed

lemma wrap_eq:
  assumes "upper_bound - lower_bound + 1 \<noteq> 0"
  shows "wrap v incr lower_bound upper_bound =
         Inr (lower_bound + (v + incr - lower_bound) mod (upper_bound - lower_bound + 1))"
  using assms by (simp add: wrap_def floordiv_def pymod_def Let_def mod_shift)

lemma wrap_zero_range:
  assumes "upper_bound - lower_bound + 1 = 0"
  shows "wrap v incr lower_bound upper_bound = Inl ZeroDivisionError"
  using assms by (simp add: wrap_def floordiv_def pymod_def Let_def)

lemma wrap_bounds:
  assumes "0 < upper_bound - lower_bound + (1::int)"
  shows "lower_bound \<le> lower_bound + x mod (upper_bound - lower_bound + 1)"
    and "lower_bound + x mod (upper_bound - lower_bound + 1) \<le> upper_bound"
proof -
  let ?r = "upper_bound - lower_bound + 1"
  have "0 \<le> x mod ?r" using assms by (rule pos_mod_sign)
  moreover have "x mod ?r < ?r" using assms by (rule pos_mod_bound)
  ultimately show "lower_bound \<le> lower_bound + x mod ?r"
    and "lower_bound + x mod ?r \<le> upper_bound"
    by linarith+
qed

text \<open>
  C3. Whenever \<open>upper - lower + 1 > 0\<close>, \<open>_wrap\<close> returns
  \<open>lower + ((value + increment - lower) mod (upper - lower + 1))\<close> for all integers
  \<open>value\<close> and \<open>increment\<close>, and that result lies between \<open>lower\<close> and \<open>upper\<close>, however
  large the increment.
\<close>

theorem wrap_formula_in_range:
  assumes "0 < upper_bound - lower_bound + 1"
  shows "wrap v incr lower_bound upper_bound =
           Inr (lower_bound + (v + incr - lower_bound) mod (upper_bound - lower_bound + 1))
         \<and> lower_bound \<le> lower_bound + (v + incr - lower_bound) mod (upper_bound - lower_bound + 1)
         \<and> lower_bound + (v + incr - lower_bound) mod (upper_bound - lower_bound + 1) \<le> upper_bound"
  using assms wrap_bounds [OF assms, of "v + incr - lower_bound"] by (simp add: wrap_eq)

theorem wrap_formula_in_range_witness:
  "wrap 3 (- 25) 0 9 = Inr 8 \<and> wrap 9 12 0 9 = Inr 1"
  using wrap_formula_in_range [of 9 0 3 "- 25"] wrap_formula_in_range [of 9 0 9 12]
  by simp

text \<open>
  C7. For bounds \<open>lo \<le> hi\<close>, every integer \<open>k\<close> and every \<open>v\<close> between \<open>lo\<close> and \<open>hi\<close>:
  wrapping \<open>v\<close> by \<open>k\<close> and the result by \<open>- k\<close> gives \<open>v\<close> back, and neither call raises.
\<close>

theorem wrap_inverse:
  assumes "lo \<le> hi" and "lo \<le> v" and "v \<le> hi"
  shows "(case wrap v k lo hi of Inl e \<Rightarrow> Inl e | Inr u \<Rightarrow> wrap u (- k) lo hi) = Inr v"
proof -
  let ?r = "hi - lo + 1"
  have r: "?r \<noteq> 0" using assms by simp
  have "(lo + (v + k - lo) mod ?r + - k - lo) mod ?r = ((v + k - lo) mod ?r - k) mod ?r"
    by (simp add: algebra_simps)
  also have "\<dots> = ((v + k - lo) - k) mod ?r" by (rule mod_diff_left_eq)
  also have "\<dots> = (v - lo) mod ?r" by simp
  also have "\<dots> = v - lo" using assms by simp
  finally have "(lo + (v + k - lo) mod ?r + - k - lo) mod ?r = v - lo" .
  then show ?thesis using r by (simp add: wrap_eq)
qed

theorem wrap_inverse_witness:
  "(case wrap 7 15 0 9 of Inl e \<Rightarrow> Inl e | Inr u \<Rightarrow> wrap u (- 15) 0 9) = Inr 7"
  using wrap_inverse [of 0 9 7 15] by simp

section \<open>The decoder\<close>

lemmas const_defs =
  DIR_CW_def DIR_CCW_def R_START_def R_CW_1_def R_CW_2_def R_CW_3_def
  R_CCW_1_def R_CCW_2_def R_CCW_3_def R_ILLEGAL_def STATE_MASK_def DIR_MASK_def

text \<open>Both table indices are always in range, so the lookups cannot raise IndexError.\<close>

lemma state_bits: "st AND STATE_MASK \<in> {0, 1, 2, 3, 4, 5, 6, 7}"
proof -
  have "0 \<le> st AND 7" by simp
  moreover have "st AND 7 \<le> 7" by (rule AND_upper2) simp
  ultimately show ?thesis unfolding STATE_MASK_def by (simp, presburger)
qed

lemma pins_cases:
  "clk_dt_pins False False False = 0" "clk_dt_pins False False True = 1"
  "clk_dt_pins False True False = 2" "clk_dt_pins False True True = 3"
  "clk_dt_pins True False False = 3" "clk_dt_pins True False True = 2"
  "clk_dt_pins True True False = 1" "clk_dt_pins True True True = 0"
  by (simp_all add: clk_dt_pins_def)

lemma pins_range: "clk_dt_pins iv clk dt \<in> {0, 1, 2, 3}"
  by (cases iv; cases clk; cases dt) (simp_all add: pins_cases)

lemma table_shapes:
  "length transition_table = 8" "\<forall>row \<in> set transition_table. length row = 4"
  "length transition_table_half_step = 8"
  "\<forall>row \<in> set transition_table_half_step. length row = 4"
  by (simp_all add: transition_table_def transition_table_half_step_def)

lemma process_state:
  "rot_state (obj (process_rotary_pins self w clk dt)) =
   next_state (rot_half_step self) (rot_state self) (clk_dt_pins (rot_invert self) clk dt)"
  by (simp add: process_rotary_pins_def Let_def split: sum.split)

lemma process_config:
  "rot_half_step (obj (process_rotary_pins self w clk dt)) = rot_half_step self"
  "rot_invert (obj (process_rotary_pins self w clk dt)) = rot_invert self"
  "rot_min_val (obj (process_rotary_pins self w clk dt)) = rot_min_val self"
  "rot_max_val (obj (process_rotary_pins self w clk dt)) = rot_max_val self"
  "rot_incr (obj (process_rotary_pins self w clk dt)) = rot_incr self"
  "rot_reverse (obj (process_rotary_pins self w clk dt)) = rot_reverse self"
  "rot_range_mode (obj (process_rotary_pins self w clk dt)) = rot_range_mode self"
  "rot_listener (obj (process_rotary_pins self w clk dt)) = rot_listener self"
  by (simp_all add: process_rotary_pins_def Let_def split: sum.split)

text \<open>
  C1. From the rest state, with the full-step table and no inversion, the samples
  10, 00, 01, 11 give the directions none, none, none, clockwise: one clockwise event,
  on the last sample, after which the state bits are those of the rest state again.
\<close>

theorem one_event_per_detent:
  assumes "\<not> rot_half_step self" and "\<not> rot_invert self"
    and "rot_state self AND STATE_MASK = R_START"
  shows "directions self w cw_detent = [0, 0, 0, DIR_CW]
         \<and> rot_state (fst (run self w cw_detent)) AND STATE_MASK = R_START"
  using assms
  by (simp add: cw_detent_def Let_def process_state process_config pins_cases
      next_state_def transition_table_def const_defs)

theorem one_event_per_detent_witness:
  "directions r_l () cw_detent = [0, 0, 0, DIR_CW]
   \<and> rot_state (fst (run r_l () cw_detent)) AND STATE_MASK = R_START"
  using one_event_per_detent [of r_l "()"]
  by (simp add: r_l_def Rotary_init_def const_defs)

text \<open>
  Two consecutive samples that differ on both lines: the second is the complement of the
  first, for either setting of \<open>invert\<close>.
\<close>

lemma pins_complement:
  "clk_dt_pins iv (\<not> clk) (\<not> dt) = 3 - clk_dt_pins iv clk dt"
  by (cases iv; cases clk; cases dt) (simp_all add: pins_cases)

lemma full_step_jump:
  assumes "pins \<in> {0, 1, 2, 3}"
  shows "next_state False (next_state False st pins) (3 - pins) AND DIR_MASK = 0"
    and "next_state False st pins AND STATE_MASK \<noteq> R_START \<Longrightarrow>
         next_state False (next_state False st pins) (3 - pins) = R_START"
    and "next_state False (next_state False st pins) (3 - pins) = R_START
         \<or> next_state False (next_state False st pins) (3 - pins) = R_CW_1
         \<or> next_state False (next_state False st pins) (3 - pins) = R_CCW_1"
  using state_bits [of st] assms
  by (auto simp add: next_state_def transition_table_def const_defs)

lemma full_step_from_illegal:
  assumes "pins \<in> {0, 1, 2, 3}" and "st AND STATE_MASK = R_ILLEGAL"
  shows "next_state False st pins = R_START"
  using assms by (auto simp add: next_state_def transition_table_def const_defs)

text \<open>
  C2, as the code has it. With the full-step table, take any tracker (any point of any
  sample sequence), a sample, and then the sample on which both lines have changed, which
  no quadrature path contains. The second sample gives no direction. It leaves the
  decoder at rest whenever the first sample had left it away from rest; if the decoder
  was at rest already, the second sample is decoded as a first step from rest, so the
  state after it is rest, \<open>R_CW_1\<close> or \<open>R_CCW_1\<close>. And from \<open>R_ILLEGAL\<close> each of the four
  samples leads to rest with no direction.
\<close>

theorem two_line_jump_no_event:
  assumes "\<not> rot_half_step self"
  shows "rot_state (obj (process_rotary_pins
            (obj (process_rotary_pins self w clk dt)) w' (\<not> clk) (\<not> dt))) AND DIR_MASK = 0
       \<and> (rot_state (obj (process_rotary_pins self w clk dt)) AND STATE_MASK \<noteq> R_START \<longrightarrow>
            rot_state (obj (process_rotary_pins
              (obj (process_rotary_pins self w clk dt)) w' (\<not> clk) (\<not> dt))) = R_START)
       \<and> (rot_state (obj (process_rotary_pins
              (obj (process_rotary_pins self w clk dt)) w' (\<not> clk) (\<not> dt)))
            \<in> {R_START, R_CW_1, R_CCW_1})
       \<and> (rot_state self AND STATE_MASK = R_ILLEGAL \<longrightarrow>
            rot_state (obj (process_rotary_pins self w clk dt)) = R_START
            \<and> rot_state (obj (process_rotary_pins self w clk dt)) AND DIR_MASK = 0)"
proof -
  let ?p = "clk_dt_pins (rot_invert self) clk dt"
  have p: "?p \<in> {0, 1, 2, 3}" by (rule pins_range)
  have s1: "rot_state (obj (process_rotary_pins self w clk dt))
            = next_state False (rot_state self) ?p"
    using assms by (simp add: process_state)
  have s2: "rot_state (obj (process_rotary_pins
              (obj (process_rotary_pins self w clk dt)) w' (\<not> clk) (\<not> dt)))
            = next_state False (next_state False (rot_state self) ?p) (3 - ?p)"
    using assms by (simp add: process_state process_config pins_complement)
  have i: "rot_state self AND STATE_MASK = R_ILLEGAL \<longrightarrow>
           next_state False (rot_state self) ?p = R_START"
    using full_step_from_illegal [OF p] by simp
  show ?thesis
    unfolding s1 s2
    using full_step_jump [OF p, of "rot_state self"] i
    by (simp add: R_START_def)
qed

text \<open>
  After 10 from rest the decoder is at \<open>R_CW_1\<close>, and 01 sends it to rest; a tracker put
  at \<open>R_ILLEGAL\<close> goes to rest on 10.
\<close>

theorem two_line_jump_no_event_witness:
  "\<not> rot_half_step r_l
   \<and> rot_state (obj (process_rotary_pins r_l () True False)) AND STATE_MASK \<noteq> R_START
   \<and> rot_state (obj (process_rotary_pins
        (obj (process_rotary_pins r_l () True False)) () False True)) = R_START
   \<and> rot_state (r_l\<lparr>rot_state := R_ILLEGAL\<rparr>) AND STATE_MASK = R_ILLEGAL
   \<and> rot_state (obj (process_rotary_pins (r_l\<lparr>rot_state := R_ILLEGAL\<rparr>) () True False))
       = R_START"
proof -
  have h: "\<not> rot_half_step r_l" "\<not> rot_half_step (r_l\<lparr>rot_state := R_ILLEGAL\<rparr>)"
    by (simp_all add: r_l_def Rotary_init_def)
  have a: "rot_state (obj (process_rotary_pins r_l () True False)) AND STATE_MASK \<noteq> R_START"
    by code_simp
  have b: "rot_state (r_l\<lparr>rot_state := R_ILLEGAL\<rparr>) AND STATE_MASK = R_ILLEGAL"
    by (simp add: const_defs)
  from two_line_jump_no_event [OF h(1), of "()" True False "()"]
       two_line_jump_no_event [OF h(2), of "()" True False "()"] h(1) a b
  show ?thesis by simp
qed

text \<open>
  C2 as stated asks that the decoder be back at rest by the sample after every such
  jump. On 10, 01, 10, 00, 01, 11 from rest the third sample changes both lines; the
  decoder, at rest by then, takes it as the first step of a clockwise detent: it is at
  \<open>R_CW_1\<close> after it, at \<open>R_CW_2\<close> after the following sample, and the last sample
  emits a clockwise event.
\<close>

theorem raw_jump_counterexample:
  "rot_state (fst (run r_l () [(True, False), (False, True), (True, False)])) = R_CW_1
   \<and> rot_state (fst (run r_l () [(True, False), (False, True), (True, False), (False, False)]))
       = R_CW_2
   \<and> directions r_l ()
        [(True, False), (False, True), (True, False), (False, False), (False, True), (True, True)]
       = [0, 0, 0, 0, 0, DIR_CW]"
  by code_simp

lemma full_step_never_illegal:
  assumes "pins \<in> {0, 1, 2, 3}"
  shows "next_state False st pins AND STATE_MASK \<noteq> R_ILLEGAL"
  using state_bits [of st] assms
  by (auto simp add: next_state_def transition_table_def const_defs)

lemma run_never_illegal:
  assumes "\<not> rot_half_step self" and "rot_state self AND STATE_MASK \<noteq> R_ILLEGAL"
  shows "rot_state (fst (run self w es)) AND STATE_MASK \<noteq> R_ILLEGAL"
  using assms
proof (induction es arbitrary: self w)
  case Nil
  then show ?case by simp
next
  case (Cons e es)
  obtain clk dt where e: "e = (clk, dt)" by (cases e)
  let ?res = "process_rotary_pins self w clk dt"
  have "rot_state (obj ?res) AND STATE_MASK \<noteq> R_ILLEGAL"
    using Cons.prems(1) pins_range [of "rot_invert self" clk dt]
    by (simp only: process_state) (simp add: full_step_never_illegal)
  moreover have "\<not> rot_half_step (obj ?res)"
    using Cons.prems(1) by (simp add: process_config)
  ultimately show ?case using Cons.IH [of "obj ?res" "env ?res"] by (simp add: e Let_def)
qed

text \<open>
  C10. No entry of the full-step table has the state bits of \<open>R_ILLEGAL\<close>, and a tracker
  in full-step mode that starts at rest is never in \<open>R_ILLEGAL\<close>, whatever samples it
  receives: the last row of the table is never used.
\<close>

theorem never_illegal:
  "(\<forall>row \<in> set transition_table. \<forall>e \<in> set row. e AND STATE_MASK \<noteq> R_ILLEGAL)
   \<and> (\<not> rot_half_step self \<and> rot_state self = R_START \<longrightarrow>
        rot_state (fst (run self w es)) AND STATE_MASK \<noteq> R_ILLEGAL)"
proof
  show "\<forall>row \<in> set transition_table. \<forall>e \<in> set row. e AND STATE_MASK \<noteq> R_ILLEGAL"
    by (simp add: transition_table_def const_defs)
next
  show "\<not> rot_half_step self \<and> rot_state self = R_START \<longrightarrow>
        rot_state (fst (run self w es)) AND STATE_MASK \<noteq> R_ILLEGAL"
    using run_never_illegal [of self w es] by (simp add: const_defs)
qed

theorem never_illegal_witness:
  "[R_CCW_2, R_START, R_CCW_3, R_START OR DIR_CCW] \<in> set transition_table
   \<and> (R_START OR DIR_CCW) AND STATE_MASK \<noteq> R_ILLEGAL
   \<and> \<not> rot_half_step r_l \<and> rot_state r_l = R_START
   \<and> rot_state (fst (run r_l () (cw_detent @ ccw_detent))) AND STATE_MASK
       \<noteq> R_ILLEGAL"
  using never_illegal [of r_l "()" "cw_detent @ ccw_detent"]
  by (simp add: r_l_def Rotary_init_def transition_table_def const_defs)

section \<open>The tracker\<close>

lemmas mode_defs = RANGE_UNBOUNDED_def RANGE_WRAP_def RANGE_BOUNDED_def

text \<open>The handler, branch by branch.\<close>

lemma signed_incr_state [simp]:
  "signed_incr (self\<lparr>rot_state := x\<rparr>) st = signed_incr self st"
  by (simp add: signed_incr_def Let_def)

lemma process_wrap_raise:
  assumes "rot_range_mode self = RANGE_WRAP"
    and "nxt = next_state (rot_half_step self) (rot_state self)
                 (clk_dt_pins (rot_invert self) clk dt)"
    and "wrap (rot_value self) (signed_incr self nxt) (rot_min_val self) (rot_max_val self)
         = Inl e"
  shows "process_rotary_pins self w clk dt =
         \<lparr> raised = Some e, obj = self\<lparr>rot_state := nxt\<rparr>, env = w \<rparr>"
  using assms by (simp add: process_rotary_pins_def Let_def)

lemma process_wrap_return:
  assumes "rot_range_mode self = RANGE_WRAP"
    and "nxt = next_state (rot_half_step self) (rot_state self)
                 (clk_dt_pins (rot_invert self) clk dt)"
    and "wrap (rot_value self) (signed_incr self nxt) (rot_min_val self) (rot_max_val self)
         = Inr v"
  shows "process_rotary_pins self w clk dt =
         \<lparr> raised = None, obj = self\<lparr>rot_state := nxt, rot_value := v\<rparr>,
           env = notify (rot_value self) (self\<lparr>rot_state := nxt, rot_value := v\<rparr>) w \<rparr>"
  using assms by (simp add: process_rotary_pins_def Let_def)

lemma process_bounded:
  assumes "rot_range_mode self = RANGE_BOUNDED"
    and "nxt = next_state (rot_half_step self) (rot_state self)
                 (clk_dt_pins (rot_invert self) clk dt)"
    and "v = bound (rot_value self) (signed_incr self nxt) (rot_min_val self) (rot_max_val self)"
  shows "process_rotary_pins self w clk dt =
         \<lparr> raised = None, obj = self\<lparr>rot_state := nxt, rot_value := v\<rparr>,
           env = notify (rot_value self) (self\<lparr>rot_state := nxt, rot_value := v\<rparr>) w \<rparr>"
  using assms by (simp add: process_rotary_pins_def Let_def mode_defs)

lemma process_unbounded:
  assumes "rot_range_mode self \<noteq> RANGE_WRAP" and "rot_range_mode self \<noteq> RANGE_BOUNDED"
    and "nxt = next_state (rot_half_step self) (rot_state self)
                 (clk_dt_pins (rot_invert self) clk dt)"
    and "v = rot_value self + signed_incr self nxt"
  shows "process_rotary_pins self w clk dt =
         \<lparr> raised = None, obj = self\<lparr>rot_state := nxt, rot_value := v\<rparr>,
           env = notify (rot_value self) (self\<lparr>rot_state := nxt, rot_value := v\<rparr>) w \<rparr>"
  using assms by (simp add: process_rotary_pins_def Let_def)

text \<open>Every call ends in one of two shapes.\<close>

lemma process_shape:
  obtains (raise) e nxt where
      "process_rotary_pins self w clk dt =
       \<lparr> raised = Some e, obj = self\<lparr>rot_state := nxt\<rparr>, env = w \<rparr>"
  | (return) nxt v where
      "process_rotary_pins self w clk dt =
       \<lparr> raised = None, obj = self\<lparr>rot_state := nxt, rot_value := v\<rparr>,
         env = notify (rot_value self) (self\<lparr>rot_state := nxt, rot_value := v\<rparr>) w \<rparr>"
proof -
  let ?nxt = "next_state (rot_half_step self) (rot_state self)
                (clk_dt_pins (rot_invert self) clk dt)"
  let ?wr = "wrap (rot_value self) (signed_incr self ?nxt) (rot_min_val self) (rot_max_val self)"
  consider (w) "rot_range_mode self = RANGE_WRAP"
    | (b) "rot_range_mode self = RANGE_BOUNDED"
    | (u) "rot_range_mode self \<noteq> RANGE_WRAP" "rot_range_mode self \<noteq> RANGE_BOUNDED"
    by blast
  then show thesis
  proof cases
    case w
    show thesis
    proof (cases ?wr)
      case (Inl e)
      from process_wrap_raise [OF w refl Inl] show thesis by (rule raise)
    next
      case (Inr v)
      from process_wrap_return [OF w refl Inr] show thesis by (rule return)
    qed
  next
    case b
    from process_bounded [OF b refl refl] show thesis by (rule return)
  next
    case u
    from process_unbounded [OF u refl refl] show thesis by (rule return)
  qed
qed

text \<open>
  C4. If \<open>min_val \<le> max_val\<close> and the range mode is \<open>RANGE_BOUNDED\<close> or \<open>RANGE_WRAP\<close>, a
  call of the handler does not raise and leaves the value between \<open>min_val\<close> and
  \<open>max_val\<close>, for every sample, every decoder state and every value before the call.
\<close>

theorem value_in_bounds:
  assumes "rot_min_val self \<le> rot_max_val self"
    and "rot_range_mode self = RANGE_BOUNDED \<or> rot_range_mode self = RANGE_WRAP"
  shows "raised (process_rotary_pins self w clk dt) = None
         \<and> rot_min_val (obj (process_rotary_pins self w clk dt))
             \<le> rot_value (obj (process_rotary_pins self w clk dt))
         \<and> rot_value (obj (process_rotary_pins self w clk dt))
             \<le> rot_max_val (obj (process_rotary_pins self w clk dt))"
proof -
  let ?nxt = "next_state (rot_half_step self) (rot_state self)
                (clk_dt_pins (rot_invert self) clk dt)"
  let ?i = "signed_incr self ?nxt"
  have r: "0 < rot_max_val self - rot_min_val self + 1" using assms(1) by simp
  from assms(2) show ?thesis
  proof
    assume m: "rot_range_mode self = RANGE_BOUNDED"
    show ?thesis using assms(1)
      by (simp add: process_bounded [OF m refl refl] bound_def)
  next
    assume m: "rot_range_mode self = RANGE_WRAP"
    have w: "wrap (rot_value self) ?i (rot_min_val self) (rot_max_val self) =
          Inr (rot_min_val self + (rot_value self + ?i - rot_min_val self)
                 mod (rot_max_val self - rot_min_val self + 1))"
      using r by (simp add: wrap_eq)
    show ?thesis
      using wrap_bounds [OF r, of "rot_value self + ?i - rot_min_val self"]
      by (simp add: process_wrap_return [OF m refl w])
  qed
qed

theorem value_in_bounds_witness:
  "raised (process_rotary_pins overshot () True True) = None
   \<and> rot_value (obj (process_rotary_pins overshot () True True)) = 20"
proof -
  have h1: "rot_min_val overshot \<le> rot_max_val overshot"
    by (simp add: overshot_def r_l_def Rotary_init_def)
  have h2: "rot_range_mode overshot = RANGE_BOUNDED \<or> rot_range_mode overshot = RANGE_WRAP"
    by (simp add: overshot_def r_l_def Rotary_init_def)
  have v: "rot_value (obj (process_rotary_pins overshot () True True)) = 20"
    by code_simp
  from value_in_bounds [OF h1 h2, of "()" True True] v show ?thesis by simp
qed

section \<open>Listeners\<close>

lemma trigger_append:
  "trigger (pre @ ls) w =
    (case trigger pre w of (None, w1) \<Rightarrow> trigger ls w1 | (Some e, w1) \<Rightarrow> (Some e, w1))"
  by (induction pre arbitrary: w) (auto split: prod.split option.split)

lemma process_value_changed:
  assumes "rot_value (obj (process_rotary_pins self w clk dt)) \<noteq> rot_value self"
  shows "raised (process_rotary_pins self w clk dt) = None"
    and "env (process_rotary_pins self w clk dt) =
         (if rot_listener self = [] then w else snd (trigger (rot_listener self) w))"
proof -
  have "raised (process_rotary_pins self w clk dt) = None
        \<and> env (process_rotary_pins self w clk dt) =
          (if rot_listener self = [] then w else snd (trigger (rot_listener self) w))"
  proof (cases rule: process_shape [of self w clk dt])
    case (raise e nxt)
    with assms show ?thesis by simp
  next
    case (return nxt v)
    with assms show ?thesis by (simp add: notify_def)
  qed
  then show "raised (process_rotary_pins self w clk dt) = None"
    and "env (process_rotary_pins self w clk dt) =
         (if rot_listener self = [] then w else snd (trigger (rot_listener self) w))"
    by simp_all
qed

text \<open>
  C5, as the code has it. When an edge changes the value and a registered listener
  raises, the handler itself does not raise. The listeners registered before the faulty
  one have run; the loop ends at the fault, so those registered after it are not called;
  and the exception is dropped without any record: the world is exactly what the faulty
  listener left.
\<close>

theorem listener_fault_swallowed:
  assumes "rot_listener self = pre @ f # post"
    and "trigger pre w = (None, w1)" and "f w1 = (Some e, w2)"
    and "rot_value (obj (process_rotary_pins self w clk dt)) \<noteq> rot_value self"
  shows "raised (process_rotary_pins self w clk dt) = None
         \<and> env (process_rotary_pins self w clk dt) = w2"
  using assms(1-3) process_value_changed [OF assms(4)]
  by (simp add: trigger_append)

theorem listener_fault_swallowed_witness:
  "raised (process_rotary_pins (observed\<lparr>rot_state := R_CW_3\<rparr>) [] True True) = None
   \<and> env (process_rotary_pins (observed\<lparr>rot_state := R_CW_3\<rparr>) [] True True) = [1]"
proof -
  have l: "rot_listener (observed\<lparr>rot_state := R_CW_3\<rparr>) =
           [log_listener 1] @ faulty_listener # [log_listener 3]"
    by (simp add: observed_def add_listener_def Rotary_init_def)
  have p: "trigger [log_listener 1] [] = (None, [1])"
    by (simp add: log_listener_def)
  have f: "faulty_listener [1] = (Some (OtherError ''fault''), [1])"
    by (simp add: faulty_listener_def)
  have c: "rot_value (obj (process_rotary_pins (observed\<lparr>rot_state := R_CW_3\<rparr>) [] True True))
           \<noteq> rot_value (observed\<lparr>rot_state := R_CW_3\<rparr>)"
    by code_simp
  from listener_fault_swallowed [OF l p f c] show ?thesis .
qed

text \<open>
  C5 as stated asks that the listeners after the faulty one still run and that the fault
  be observable. After a clockwise detent on \<open>observed\<close> the value has changed from 1
  to 2, and the log holds the first listener's entry only: the third listener was not
  called and nothing tells of the fault.
\<close>

theorem listener_fault_counterexample:
  "rot_value (fst (run observed [] cw_detent)) = 2 \<and> snd (run observed [] cw_detent) = [1]"
  by code_simp

section \<open>Configuration\<close>

text \<open>
  C6, as the code has it. \<open>set\<close> validates nothing: it never raises, stores every
  argument that is given exactly as given (also bounds with \<open>min_val > max_val\<close> and
  increments \<open>\<le> 0\<close>), keeps the fields whose argument is absent, and puts the decoder
  at rest. It does not touch the world.
\<close>

theorem set_stores_unchecked:
  "raised (Rotary_set self w val min_val incr max_val reverse range_mode) = None
   \<and> env (Rotary_set self w val min_val incr max_val reverse range_mode) = w
   \<and> obj (Rotary_set self w val min_val incr max_val reverse range_mode) =
       self\<lparr>rot_value := (case val of None \<Rightarrow> rot_value self | Some v \<Rightarrow> v),
            rot_min_val := (case min_val of None \<Rightarrow> rot_min_val self | Some v \<Rightarrow> v),
            rot_max_val := (case max_val of None \<Rightarrow> rot_max_val self | Some v \<Rightarrow> v),
            rot_incr := (case incr of None \<Rightarrow> rot_incr self | Some v \<Rightarrow> v),
            rot_reverse := (case reverse of None \<Rightarrow> rot_reverse self
                            | Some b \<Rightarrow> if b then - 1 else 1),
            rot_range_mode := (case range_mode of None \<Rightarrow> rot_range_mode self | Some v \<Rightarrow> v),
            rot_state := R_START\<rparr>"
  by (cases val; cases min_val; cases max_val; cases incr; cases reverse; cases range_mode)
     (simp_all add: Rotary_set_def)

text \<open>
  C6 as stated asks for an error and an unchanged tracker. \<open>set(min_val=5, incr=0,
  max_val=1)\<close> on \<open>r_l\<close> returns normally with all three stored.
\<close>

theorem set_invalid_counterexample:
  "raised (Rotary_set r_l () None (Some 5) (Some 0) (Some 1) None None) = None
   \<and> rot_min_val (obj (Rotary_set r_l () None (Some 5) (Some 0) (Some 1) None None)) = 5
   \<and> rot_max_val (obj (Rotary_set r_l () None (Some 5) (Some 0) (Some 1) None None)) = 1
   \<and> rot_incr (obj (Rotary_set r_l () None (Some 5) (Some 0) (Some 1) None None)) = 0"
  by (simp add: Rotary_set_def)

text \<open>
  C9. For every tracker and every value \<open>v\<close>, re-seeding the tracked value, which the
  class offers as \<open>set(value=v)\<close> (the program calls \<open>r_l.set(value=4)\<close>), returns
  normally, leaves \<open>v\<close> as the tracked value and calls no listener: the world the
  listeners act on and the listener list are as before. Further arguments of the same
  call do not change this.
\<close>

theorem reseed_calls_no_listener:
  "raised (Rotary_set self w (Some v) min_val incr max_val reverse range_mode) = None
   \<and> rot_value (obj (Rotary_set self w (Some v) min_val incr max_val reverse range_mode)) = v
   \<and> env (Rotary_set self w (Some v) min_val incr max_val reverse range_mode) = w
   \<and> rot_listener (obj (Rotary_set self w (Some v) min_val incr max_val reverse range_mode))
       = rot_listener self"
  by (cases min_val; cases max_val; cases incr; cases reverse; cases range_mode)
     (simp_all add: Rotary_set_def)

text \<open>With three listeners registered, two of which log every call, the log stays empty.\<close>

theorem reseed_calls_no_listener_witness:
  "rot_value (obj (Rotary_set observed [] (Some 4) None None None None None)) = 4
   \<and> env (Rotary_set observed [] (Some 4) None None None None None) = []
   \<and> length (rot_listener observed) = 3"
  using reseed_calls_no_listener [of observed "[]" 4 None None None None None]
  by (simp add: observed_def add_listener_def Rotary_init_def)

text \<open>\<open>reset\<close> takes no value; it seeds 0 in the same way.\<close>

lemma reset_seeds_zero:
  "raised (Rotary_reset self w) = None
   \<and> env (Rotary_reset self w) = w
   \<and> obj (Rotary_reset self w) = self\<lparr>rot_value := 0\<rparr>"
  by (simp add: Rotary_reset_def)

section \<open>Reversal\<close>

lemma signed_incr_mirror:
  assumes "rot_incr b = rot_incr a" and "rot_reverse b = - rot_reverse a"
  shows "signed_incr b st = - signed_incr a st"
  using assms by (simp add: signed_incr_def Let_def)

lemma deltas_mirror:
  assumes "rot_range_mode a \<noteq> RANGE_WRAP" and "rot_range_mode a \<noteq> RANGE_BOUNDED"
    and "rot_range_mode b = rot_range_mode a" and "rot_half_step b = rot_half_step a"
    and "rot_invert b = rot_invert a" and "rot_state b = rot_state a"
    and "rot_incr b = rot_incr a" and "rot_reverse b = - rot_reverse a"
  shows "deltas b wb es = map uminus (deltas a wa es)"
  using assms
proof (induction es arbitrary: a b wa wb)
  case Nil
  then show ?case by simp
next
  case (Cons e es)
  obtain clk dt where e: "e = (clk, dt)" by (cases e)
  let ?nxt = "next_state (rot_half_step a) (rot_state a) (clk_dt_pins (rot_invert a) clk dt)"
  let ?a' = "a\<lparr>rot_state := ?nxt, rot_value := rot_value a + signed_incr a ?nxt\<rparr>"
  let ?b' = "b\<lparr>rot_state := ?nxt, rot_value := rot_value b + signed_incr b ?nxt\<rparr>"
  have pa: "obj (process_rotary_pins a wa clk dt) = ?a'"
    by (simp add: process_unbounded [OF Cons.prems(1,2) refl refl])
  have mb: "rot_range_mode b \<noteq> RANGE_WRAP" "rot_range_mode b \<noteq> RANGE_BOUNDED"
    using Cons.prems by simp_all
  have nb: "?nxt = next_state (rot_half_step b) (rot_state b) (clk_dt_pins (rot_invert b) clk dt)"
    using Cons.prems by simp
  have pb: "obj (process_rotary_pins b wb clk dt) = ?b'"
    by (simp add: process_unbounded [OF mb nb refl])
  have s: "signed_incr b ?nxt = - signed_incr a ?nxt"
    using Cons.prems by (simp add: signed_incr_mirror)
  have ih: "deltas (obj (process_rotary_pins b wb clk dt)) (env (process_rotary_pins b wb clk dt)) es
            = map uminus (deltas (obj (process_rotary_pins a wa clk dt))
                            (env (process_rotary_pins a wa clk dt)) es)"
    using Cons.prems by (intro Cons.IH) (simp_all add: pa pb)
  have d: "rot_value (obj (process_rotary_pins b wb clk dt)) - rot_value b
           = - (rot_value (obj (process_rotary_pins a wa clk dt)) - rot_value a)"
    by (simp add: pa pb s)
  show ?case
    by (simp add: e Let_def ih d)
qed

text \<open>
  C8, as the code has it. In the unbounded range mode (any mode other than \<open>RANGE_WRAP\<close>
  and \<open>RANGE_BOUNDED\<close>), two trackers that differ in the sign of \<open>reverse\<close> only produce,
  on the same samples, value deltas that are the negation of each other, element by
  element.
\<close>

theorem reversal_negates_unbounded:
  assumes "rot_range_mode self \<noteq> RANGE_WRAP" and "rot_range_mode self \<noteq> RANGE_BOUNDED"
  shows "deltas (self\<lparr>rot_reverse := - rot_reverse self\<rparr>) w es = map uminus (deltas self w es)"
  using assms by (intro deltas_mirror) simp_all

theorem reversal_negates_unbounded_witness:
  "deltas (Rotary_init 0 10 1 True RANGE_UNBOUNDED False False) () (cw_detent @ ccw_detent) =
   map uminus (deltas (Rotary_init 0 10 1 False RANGE_UNBOUNDED False False) () (cw_detent @ ccw_detent))
   \<and> deltas (Rotary_init 0 10 1 False RANGE_UNBOUNDED False False) () (cw_detent @ ccw_detent)
     = [0, 0, 0, 1, 0, 0, 0, - 1]"
proof -
  have d: "deltas (Rotary_init 0 10 1 False RANGE_UNBOUNDED False False) () (cw_detent @ ccw_detent)
     = [0, 0, 0, 1, 0, 0, 0, - 1]"
    by code_simp
  from reversal_negates_unbounded
         [of "Rotary_init 0 10 1 False RANGE_UNBOUNDED False False" "()" "cw_detent @ ccw_detent"]
       d
  show ?thesis by (simp add: Rotary_init_def mode_defs)
qed

text \<open>
  C8 as stated covers every range mode. A clamped tracker at its lower bound ignores a
  counter-clockwise detent, while its reversed twin moves up by one: the deltas are
  0, 0, 0, 0 against 0, 0, 0, 1.
\<close>

theorem reversal_clamped_counterexample:
  "deltas (Rotary_init 0 6 1 False RANGE_BOUNDED False False) () ccw_detent = [0, 0, 0, 0]
   \<and> deltas (Rotary_init 0 6 1 True RANGE_BOUNDED False False) () ccw_detent = [0, 0, 0, 1]"
  by code_simp

end
